theory Spec2Isabelle
  imports
    Complex_Main
    "HOL-Library.Word"
    "HOL-Library.AList"
    "HOL-Library.Multiset"
    "HOL-Library.Product_Lexorder"
begin

section \<open>The composite key codec\<close>

text \<open>
  \<^verbatim>\<open>INDEX_TYPE\<close> is \<^verbatim>\<open>uint32_t\<close> and \<^verbatim>\<open>KEY_TYPE\<close> is \<^verbatim>\<open>uint64_t\<close>
  (SparseMatrix.h, lines 5 and 6); both are machine words, whose arithmetic wraps.
\<close>

type_synonym index = "32 word"

type_synonym key = "64 word"

text \<open>
  \<^verbatim>\<open>return ((KEY_TYPE)row << 32) + col;\<close> (line 261): the row is widened to 64 bits and
  shifted, the column is widened by the usual arithmetic conversion and added.
\<close>

definition row_col_to_key :: "index \<Rightarrow> index \<Rightarrow> key" where
  "row_col_to_key row col = push_bit 32 (ucast row :: key) + ucast col"

text \<open>
  \<^verbatim>\<open>static_cast<IndexType>(key >> 32)\<close> and \<^verbatim>\<open>static_cast<IndexType>(key)\<close>
  (lines 266 and 267): the casts keep the low 32 bits.
\<close>

definition key_to_row_col :: "key \<Rightarrow> index \<times> index" where
  "key_to_row_col k = (ucast (drop_bit 32 k), ucast k)"

section \<open>The data model\<close>

text \<open>
  Reading past the end of a buffer is undefined behaviour in the source. The model
  makes the two places where it can happen values of their own: dereferencing the end
  iterator that \<^verbatim>\<open>thrust::max_element\<close> returns for an empty range, and an index
  outside the extent of a vector.
\<close>

datatype fault = DerefEnd | OutOfRange

text \<open>
  The coordinate-format matrix of the backend: the three extents (\<^verbatim>\<open>size_t\<close>) and
  the three parallel arrays. The array \<^verbatim>\<open>values\<close> is the field \<open>vals\<close>, since
  \<open>values\<close> is a keyword.
\<close>

record 'v coo_matrix =
  num_rows :: nat
  num_cols :: nat
  num_entries :: nat
  row_indices :: "index list"
  column_indices :: "index list"
  vals :: "'v list"

text \<open>
  The transpose view owns no array. It keeps the extents it was made with; its three
  sequences are permutation iterators into the arrays of \<^verbatim>\<open>matrix\<close>, so what it
  yields is read from the wrapper's current \<^verbatim>\<open>matrix\<close> and \<^verbatim>\<open>permutation\<close>.
\<close>

record coo_matrix_view =
  view_num_rows :: nat
  view_num_cols :: nat
  view_num_entries :: nat

text \<open>
  The private members of \<^verbatim>\<open>SparseMatrixWrapper\<close> (lines 249 to 255). The
  \<^verbatim>\<open>std::unordered_map\<close> is an association list with one pair for each key; the order
  of the list stands for the order in which the hash table is iterated, which the
  language leaves open (and on which the result of \<^verbatim>\<open>make_matrix\<close> does not depend:
  lemma \<open>make_matrix_iteration_order\<close>). The mutex is left out: the model is of one
  call at a time.
\<close>

record 'v wrapper =
  matrix :: "'v coo_matrix"
  matrix_t :: coo_matrix_view
  permutation :: "index list"
  entries :: "(key \<times> 'v) list"

definition empty_matrix :: "'v coo_matrix" where
  "empty_matrix =
     \<lparr>num_rows = 0, num_cols = 0, num_entries = 0,
      row_indices = [], column_indices = [], vals = []\<rparr>"

text \<open>The default constructor (line 14): every member is default-constructed.\<close>

definition SparseMatrixWrapper :: "'v wrapper" where
  "SparseMatrixWrapper =
     \<lparr>matrix = empty_matrix,
      matrix_t = \<lparr>view_num_rows = 0, view_num_cols = 0, view_num_entries = 0\<rparr>,
      permutation = [], entries = []\<rparr>"

text \<open>
  The converting constructor (lines 16 to 18). Inside its body the name \<^verbatim>\<open>matrix\<close>
  is the parameter, which hides the member: \<^verbatim>\<open>matrix = matrix;\<close> assigns the
  parameter to itself. The members were default-constructed before the body ran. The
  model keeps the object under construction and the parameter apart.
\<close>

definition SparseMatrixWrapper_from :: "'v coo_matrix \<Rightarrow> 'v wrapper" where
  "SparseMatrixWrapper_from matrix_param =
     (let (this, matrix_param) = (SparseMatrixWrapper, matrix_param);
          (this, matrix_param) = (this, matrix_param)
      in this)"

definition get_num_rows :: "'v wrapper \<Rightarrow> nat" where
  "get_num_rows w = num_rows (matrix w)"

definition get_num_cols :: "'v wrapper \<Rightarrow> nat" where
  "get_num_cols w = num_cols (matrix w)"

definition get_num_entries :: "'v wrapper \<Rightarrow> nat" where
  "get_num_entries w = num_entries (matrix w)"

section \<open>The entry store\<close>

text \<open>
  \<^verbatim>\<open>entries[row_col_string] = val;\<close> overwrites the value of a key that is present
  and adds the pair otherwise; \<^verbatim>\<open>entries.erase(row_col_string)\<close> removes it.
\<close>

definition insert_entry :: "'v wrapper \<Rightarrow> index \<Rightarrow> index \<Rightarrow> 'v \<Rightarrow> 'v wrapper" where
  "insert_entry w row col val =
     w\<lparr>entries := AList.update (row_col_to_key row col) val (entries w)\<rparr>"

definition remove_entry :: "'v wrapper \<Rightarrow> index \<Rightarrow> index \<Rightarrow> 'v wrapper" where
  "remove_entry w row col =
     w\<lparr>entries := AList.delete (row_col_to_key row col) (entries w)\<rparr>"

section \<open>Materialization\<close>

text \<open>
  The loop of lines 56 to 65 over the store: each key is decoded, a pair whose value is
  \<^verbatim>\<open>ValueType(0)\<close> is skipped, every other one is written at position \<^verbatim>\<open>nnz\<close>
  of the three staging arrays. The result is the three arrays after the
  \<^verbatim>\<open>resize(nnz)\<close>, as a list of triplets.
\<close>

fun stage_entries :: "(key \<times> 'v::zero) list \<Rightarrow> (index \<times> index \<times> 'v) list" where
  "stage_entries [] = []"
| "stage_entries ((row_col_key, v) # es) =
     (let (row, col) = key_to_row_col row_col_key
      in if v = 0 then stage_entries es else (row, col, v) # stage_entries es)"

text \<open>
  Modelled from the spec: \<^verbatim>\<open>thrust::stable_sort_by_key\<close> belongs to the external
  backend (section 6: a stable sort-by-key primitive operating in place on parallel
  sequences). It sorts the keys and carries the zipped values along; equal keys keep
  their order.
\<close>

definition stable_sort_by_key :: "('k::linorder) list \<Rightarrow> 'a list \<Rightarrow> 'k list \<times> 'a list" where
  "stable_sort_by_key ks vs =
     (let s = sort_key fst (zip ks vs) in (map fst s, map snd s))"

text \<open>
  Modelled from the spec: \<^verbatim>\<open>*thrust::max_element(first, last)\<close>. On an empty range
  the primitive returns \<^verbatim>\<open>last\<close>, and the source dereferences it.
\<close>

fun max_element :: "('k::linorder) list \<Rightarrow> fault + 'k" where
  "max_element [] = Inl DerefEnd"
| "max_element (x # xs) = Inr (fold max xs x)"

text \<open>Modelled from the spec: \<^verbatim>\<open>cusp::counting_array<IndexType>(n)\<close> is 0, 1, ..., n - 1.\<close>

definition counting_array :: "nat \<Rightarrow> index list" where
  "counting_array n = map of_nat [0..<n]"

text \<open>
  Modelled from the spec: \<^verbatim>\<open>cusp::counting_sort_by_key(keys, vals, min, max)\<close>, the
  stable counting sort of the backend (section 4.2, step 9: keyed on column index
  bounded by the column count). A key outside the bounds indexes outside the table of
  counts.
\<close>

definition counting_sort_by_key ::
  "index list \<Rightarrow> 'a list \<Rightarrow> index \<Rightarrow> index \<Rightarrow> fault + index list \<times> 'a list" where
  "counting_sort_by_key ks vs lo hi =
     (if list_all (\<lambda>k. lo \<le> k \<and> k \<le> hi) ks then Inr (stable_sort_by_key ks vs)
      else Inl OutOfRange)"

text \<open>
  The two sorts of lines 79 and 80: first by \<^verbatim>\<open>h_J\<close> carrying \<^verbatim>\<open>(h_I, h_V)\<close>,
  then by \<^verbatim>\<open>h_I\<close> carrying \<^verbatim>\<open>(h_J, h_V)\<close>.
\<close>

definition sort_triplets :: "(index \<times> index \<times> 'v) list \<Rightarrow> index list \<times> index list \<times> 'v list" where
  "sort_triplets staged =
     (let h_I = map fst staged;
          h_J = map (fst \<circ> snd) staged;
          h_V = map (snd \<circ> snd) staged;
          (h_J, h_IV) = stable_sort_by_key h_J (zip h_I h_V);
          (h_I, h_V) = (map fst h_IV, map snd h_IV);
          (h_I, h_JV) = stable_sort_by_key h_I (zip h_J h_V);
          (h_J, h_V) = (map fst h_JV, map snd h_JV)
      in (h_I, h_J, h_V))"

text \<open>
  \<^verbatim>\<open>make_matrix\<close> (lines 49 to 134). \<^verbatim>\<open>numRows\<close> and \<^verbatim>\<open>numCols\<close> are
  \<^verbatim>\<open>IndexType\<close>: the addition of 1 is done in 32 bits. \<^verbatim>\<open>matrix.resize\<close> stores
  them as \<^verbatim>\<open>size_t\<close>. The view is made with the extents of \<^verbatim>\<open>matrix\<close> in the
  order \<^verbatim>\<open>(matrix.num_rows, matrix.num_cols, matrix.num_entries)\<close> (line 127).
\<close>

definition make_matrix :: "'v::zero wrapper \<Rightarrow> fault + 'v wrapper" where
  "make_matrix w =
     (let (h_I, h_J, h_V) = sort_triplets (stage_entries (entries w))
      in case max_element h_I of Inl e \<Rightarrow> Inl e | Inr max_I \<Rightarrow>
         case max_element h_J of Inl e \<Rightarrow> Inl e | Inr max_J \<Rightarrow>
         let numRows = max_I + 1;
             numCols = max_J + 1;
             m = \<lparr>num_rows = unat numRows, num_cols = unat numCols,
                  num_entries = length h_V,
                  row_indices = h_I, column_indices = h_J, vals = h_V\<rparr>
         in case counting_sort_by_key (column_indices m) (counting_array (num_entries m))
                   0 (of_nat (num_cols m)) of
              Inl e \<Rightarrow> Inl e
            | Inr (sorted_columns, perm) \<Rightarrow>
                Inr \<lparr>matrix = m,
                     matrix_t = \<lparr>view_num_rows = num_rows m, view_num_cols = num_cols m,
                                 view_num_entries = num_entries m\<rparr>,
                     permutation = perm,
                     entries = []\<rparr>)"

section \<open>The numeric facade\<close>

text \<open>The triplets of a matrix, in the order of its arrays.\<close>

definition triplets :: "'v coo_matrix \<Rightarrow> (index \<times> index \<times> 'v) list" where
  "triplets A = zip (row_indices A) (zip (column_indices A) (vals A))"

text \<open>
  \<^verbatim>\<open>thrust::make_permutation_iterator(a.begin(), permutation.begin())\<close>: position
  \<open>n\<close> of the sequence is \<open>a[permutation[n]]\<close>. The positions that \<^verbatim>\<open>make_matrix\<close>
  leaves in \<^verbatim>\<open>permutation\<close> are all below the number of entries (lemma
  \<open>permutation_in_range\<close>).
\<close>

definition permuted :: "'a list \<Rightarrow> index list \<Rightarrow> 'a list" where
  "permuted a perm = map (\<lambda>p. a ! unat p) perm"

text \<open>
  What \<^verbatim>\<open>matrix_t\<close> yields (lines 127 to 133): the extents the view was made with,
  the permuted column indices as its row indices, the permuted row indices as its
  column indices, the permuted values.
\<close>

definition transpose_view :: "'v wrapper \<Rightarrow> 'v coo_matrix" where
  "transpose_view w =
     \<lparr>num_rows = view_num_rows (matrix_t w), num_cols = view_num_cols (matrix_t w),
      num_entries = view_num_entries (matrix_t w),
      row_indices = permuted (column_indices (matrix w)) (permutation w),
      column_indices = permuted (row_indices (matrix w)) (permutation w),
      vals = permuted (vals (matrix w)) (permutation w)\<rparr>"

text \<open>
  Modelled from the spec: \<^verbatim>\<open>cusp::multiply(A, x, y)\<close>, the sparse matrix-vector
  product of the external backend (section 6), as its sequential kernel for the
  coordinate format: the first \<^verbatim>\<open>A.num_rows\<close> elements of \<open>y\<close> are set to zero,
  then for each entry \<open>n\<close> in order \<open>y[row[n]] = y[row[n]] + value[n] * x[col[n]]\<close>.
  The kernel does not resize \<open>y\<close>; an index outside \<open>x\<close> or \<open>y\<close> is a fault.
\<close>

fun coo_spmv_loop ::
  "(index \<times> index \<times> 'v::{plus,times}) list \<Rightarrow> 'v list \<Rightarrow> 'v list \<Rightarrow> fault + 'v list" where
  "coo_spmv_loop [] x y = Inr y"
| "coo_spmv_loop ((i, j, Aij) # es) x y =
     (if unat i < length y \<and> unat j < length x
      then coo_spmv_loop es x (y[unat i := y ! unat i + Aij * x ! unat j])
      else Inl OutOfRange)"

definition multiply :: "'v::{zero,plus,times} coo_matrix \<Rightarrow> 'v list \<Rightarrow> 'v list \<Rightarrow> fault + 'v list" where
  "multiply A x y =
     (if num_rows A \<le> length y
      then coo_spmv_loop (triplets A) x (replicate (num_rows A) 0 @ drop (num_rows A) y)
      else Inl OutOfRange)"

text \<open>
  The two \<^verbatim>\<open>if constexpr\<close> blocks of \<^verbatim>\<open>SpMV\<close> (lines 156 to 163 and 183 to 190).
  The parameter \<open>cf\<close> stands for the value type: \<open>Some f\<close> for one of the four complex
  types, with \<open>f\<close> what \<^verbatim>\<open>conjugate_functor<ValueType>\<close> computes, and \<open>None\<close> for
  any other type, for which the blocks are not compiled.
\<close>

definition conjugate_values :: "('v \<Rightarrow> 'v) option \<Rightarrow> bool \<Rightarrow> 'v wrapper \<Rightarrow> 'v wrapper" where
  "conjugate_values cf conjugate w =
     (case cf of
        None \<Rightarrow> w
      | Some f \<Rightarrow>
          if conjugate then w\<lparr>matrix := (matrix w)\<lparr>vals := map f (vals (matrix w))\<rparr>\<rparr>
          else w)"

text \<open>
  Modelled from the spec: \<^verbatim>\<open>conjugate_functor\<close> is declared in \<^verbatim>\<open>utils.h\<close>, which is
  not among the sources; section 4.4 has it conjugate the complex values.
\<close>

definition conjugate_functor :: "complex \<Rightarrow> complex" where
  "conjugate_functor z = cnj z"

text \<open>
  \<^verbatim>\<open>SpMV\<close> (lines 151 to 191). The vectors are passed by reference: \<open>s\<close> is the
  store of the caller's vectors, \<open>x\<close> and \<open>y\<close> are their addresses, and
  \<^verbatim>\<open>&x == &y\<close> is \<open>x = y\<close>. With one address for both, the product is written to a
  new vector of \<^verbatim>\<open>x.size()\<close> zeros, which then takes the place of \<open>y\<close>.
  The flag \<^verbatim>\<open>transpose\<close> is the argument \<open>transposed\<close>.
\<close>

definition SpMV ::
  "('v \<Rightarrow> 'v) option \<Rightarrow> 'v::{zero,plus,times} wrapper \<Rightarrow> ('a \<Rightarrow> 'v list) \<Rightarrow> 'a \<Rightarrow> 'a \<Rightarrow>
     bool \<Rightarrow> bool \<Rightarrow> fault + 'v wrapper \<times> ('a \<Rightarrow> 'v list)" where
  "SpMV cf w s x y transposed conjugate =
     (let w1 = conjugate_values cf conjugate w;
          A = (if transposed then transpose_view w1 else matrix w1);
          product =
            (if x = y then
               (let temp = replicate (length (s x)) 0 in multiply A (s x) temp)
             else multiply A (s x) (s y))
      in case product of
           Inl e \<Rightarrow> Inl e
         | Inr y' \<Rightarrow> Inr (conjugate_values cf conjugate w1, s(y := y')))"

text \<open>
  \<^verbatim>\<open>thrust::transform(v.begin(), v.end(), thrust::make_constant_iterator(a),
  v.begin(), thrust::multiplies<ValueType>())\<close>: every element, times \<open>a\<close>.
\<close>

definition scale :: "'v::times \<Rightarrow> 'v list \<Rightarrow> 'v list" where
  "scale a v = map (\<lambda>e. e * a) v"

text \<open>
  \<^verbatim>\<open>thrust::transform(temp.begin(), temp.end(), y.begin(), y.begin(),
  thrust::plus<ValueType>())\<close>: runs over the extent of \<open>temp\<close>, so \<open>y\<close> must be at
  least as long.
\<close>

definition add_into :: "'v::plus list \<Rightarrow> 'v list \<Rightarrow> fault + 'v list" where
  "add_into temp y =
     (if length temp \<le> length y
      then Inr (map2 (+) temp (take (length temp) y) @ drop (length temp) y)
      else Inl OutOfRange)"

text \<open>
  \<^verbatim>\<open>SpMVP\<close> (lines 194 to 225). In the second branch \<^verbatim>\<open>temp\<close> is a local vector
  of \<^verbatim>\<open>x.size()\<close> zeros: the store passed on to \<^verbatim>\<open>SpMV\<close> has it at the address
  \<open>None\<close>, apart from every vector of the caller.
\<close>

definition SpMVP ::
  "('v \<Rightarrow> 'v) option \<Rightarrow> 'v::{zero,one,plus,times} wrapper \<Rightarrow> ('a \<Rightarrow> 'v list) \<Rightarrow>
     'v \<Rightarrow> 'a \<Rightarrow> 'v \<Rightarrow> 'a \<Rightarrow> bool \<Rightarrow> bool \<Rightarrow> fault + 'v wrapper \<times> ('a \<Rightarrow> 'v list)" where
  "SpMVP cf w s alpha x beta y transposed conjugate =
     (if beta = 0 then
        (case (if alpha \<noteq> 0 then SpMV cf w s x y transposed conjugate else Inr (w, s)) of
           Inl e \<Rightarrow> Inl e
         | Inr (w1, s1) \<Rightarrow>
             Inr (w1, if alpha \<noteq> 1 then s1(y := scale alpha (s1 y)) else s1))
      else
        (let temp = replicate (length (s x)) 0;
             st = (\<lambda>r. case r of None \<Rightarrow> temp | Some a \<Rightarrow> s a)
         in case (if alpha \<noteq> 0 then SpMV cf w st (Some x) None transposed conjugate
                  else Inr (w, st)) of
              Inl e \<Rightarrow> Inl e
            | Inr (w1, st1) \<Rightarrow>
                (let st2 = (if alpha \<noteq> 0 \<and> alpha \<noteq> 1
                            then st1(None := scale alpha (st1 None)) else st1);
                     st3 = (if beta \<noteq> 1
                            then st2(Some y := scale beta (st2 (Some y))) else st2)
                 in case add_into (st3 None) (st3 (Some y)) of
                      Inl e \<Rightarrow> Inl e
                    | Inr y' \<Rightarrow> Inr (w1, (\<lambda>a. st3 (Some a))(y := y')))))"

section \<open>Notions of the specification\<close>

text \<open>The values a matrix holds at one coordinate, in the order of its arrays.\<close>

definition entries_at :: "'v coo_matrix \<Rightarrow> index \<Rightarrow> index \<Rightarrow> 'v list" where
  "entries_at A row col =
     map (snd \<circ> snd) (filter (\<lambda>t. fst t = row \<and> fst (snd t) = col) (triplets A))"

definition coordinates :: "'v coo_matrix \<Rightarrow> (index \<times> index) list" where
  "coordinates A = zip (row_indices A) (column_indices A)"

text \<open>Row-major order of coordinates: by row, and by column within a row.\<close>

definition row_major :: "index \<times> index \<Rightarrow> index \<times> index \<Rightarrow> bool" where
  "row_major a b = (fst a < fst b \<or> (fst a = fst b \<and> snd a \<le> snd b))"

text \<open>
  The largest row index and the largest column index among staged triplets: the
  surviving entries of section 4.2, step 7.
\<close>

definition max_row :: "(index \<times> index \<times> 'v) list \<Rightarrow> index" where
  "max_row ts = Max (set (map fst ts))"

definition max_col :: "(index \<times> index \<times> 'v) list \<Rightarrow> index" where
  "max_col ts = Max (set (map (fst \<circ> snd) ts))"

text \<open>A triplet with its row and column exchanged.\<close>

definition swap12 :: "'a \<times> 'b \<times> 'c \<Rightarrow> 'b \<times> 'a \<times> 'c" where
  "swap12 t = (fst (snd t), fst t, snd (snd t))"

text \<open>
  An explicitly transposed copy of a matrix (section 8, transpose correctness): every
  entry \<open>(i, j, v)\<close> becomes \<open>(j, i, v)\<close>, the two extents change places, and the
  entries stand in the row-major order of the copy.
\<close>

definition transposed_copy :: "'v coo_matrix \<Rightarrow> 'v coo_matrix" where
  "transposed_copy M =
     (let ts = sort_key (\<lambda>t. (fst t, fst (snd t))) (map swap12 (triplets M))
      in \<lparr>num_rows = num_cols M, num_cols = num_rows M, num_entries = num_entries M,
          row_indices = map fst ts, column_indices = map (fst \<circ> snd) ts,
          vals = map (snd \<circ> snd) ts\<rparr>)"

text \<open>
  Element \<open>i\<close> of the product of a matrix, given by its triplets, and a vector \<open>x\<close>
  (section 4.4, \<open>y \<leftarrow> A x\<close>): the sum over the entries of row \<open>i\<close> of the value times
  the element of \<open>x\<close> at the column.
\<close>

definition row_product :: "(index \<times> index \<times> 'v::semiring_0) list \<Rightarrow> 'v list \<Rightarrow> nat \<Rightarrow> 'v" where
  "row_product ts x i =
     sum_list (map (\<lambda>t. snd (snd t) * x ! unat (fst (snd t)))
       (filter (\<lambda>t. unat (fst t) = i) ts))"

text \<open>
  The two-step computation of section 8 (aliasing safety), \<open>temp = A x\<close> followed by
  \<open>y = temp\<close>, with \<open>y\<close> the storage of \<open>x\<close>. The vector \<open>temp\<close> is the product: it
  has as many elements as \<open>A\<close> has rows, element \<open>i\<close> being the product of row \<open>i\<close>
  and \<open>x\<close>; it then becomes the contents of the storage. The matrix \<open>A\<close> is the
  matrix of the wrapper, with its values conjugated if that is asked for, and
  explicitly transposed if that is asked for.
\<close>

definition two_step ::
  "('v \<Rightarrow> 'v) option \<Rightarrow> 'v::semiring_0 wrapper \<Rightarrow> ('a \<Rightarrow> 'v list) \<Rightarrow> 'a \<Rightarrow> bool \<Rightarrow> bool \<Rightarrow>
     'a \<Rightarrow> 'v list" where
  "two_step cf w s x transposed conjugate =
     (let M = matrix (conjugate_values cf conjugate w);
          A = (if transposed then transposed_copy M else M);
          temp = map (row_product (triplets A) (s x)) [0..<num_rows A]
      in s(x := temp))"

text \<open>The update \<open>alpha a + beta b\<close> of section 4.4, element by element.\<close>

definition axpy :: "'v::{plus,times} \<Rightarrow> 'v list \<Rightarrow> 'v \<Rightarrow> 'v list \<Rightarrow> 'v list" where
  "axpy alpha a beta b = map2 (\<lambda>p q. alpha * p + beta * q) a b"

section \<open>Auxiliary notions of the proofs\<close>

text \<open>Order by a first key, and by a second key among equal first keys.\<close>

definition lex_le :: "('a \<Rightarrow> 'k::linorder) \<Rightarrow> ('a \<Rightarrow> 'l::linorder) \<Rightarrow> 'a \<Rightarrow> 'a \<Rightarrow> bool" where
  "lex_le f g a b = (f a < f b \<or> (f a = f b \<and> g a \<le> g b))"

text \<open>The two stable sorts of \<^verbatim>\<open>make_matrix\<close>, on triplets: by column, then by row.\<close>

definition canonical :: "(index \<times> index \<times> 'v) list \<Rightarrow> (index \<times> index \<times> 'v) list" where
  "canonical ts = sort_key fst (sort_key (fst \<circ> snd) ts)"

text \<open>The matrix that \<^verbatim>\<open>SpMV\<close> hands to the backend.\<close>

definition operand :: "('v \<Rightarrow> 'v) option \<Rightarrow> 'v wrapper \<Rightarrow> bool \<Rightarrow> bool \<Rightarrow> 'v coo_matrix" where
  "operand cf w transposed conjugate =
     (let w1 = conjugate_values cf conjugate w
      in if transposed then transpose_view w1 else matrix w1)"

text \<open>Every row index is below \<open>m\<close> and every column index below \<open>n\<close>.\<close>

definition in_range :: "(index \<times> index \<times> 'v) list \<Rightarrow> nat \<Rightarrow> nat \<Rightarrow> bool" where
  "in_range ts m n = list_all (\<lambda>t. unat (fst t) < m \<and> unat (fst (snd t)) < n) ts"

section \<open>Concrete inputs\<close>

text \<open>
  The four entries of the end-to-end scenario (section 8 of the specification), staged
  in an order that is not row-major, and the wrapper that \<^verbatim>\<open>make_matrix\<close> leaves.
\<close>

definition square_store :: "int wrapper" where
  "square_store =
     insert_entry (insert_entry (insert_entry (insert_entry SparseMatrixWrapper
       1 1 4) 0 1 2) 1 0 3) 0 0 1"

definition square_wrapper :: "int wrapper" where
  "square_wrapper =
     \<lparr>matrix = \<lparr>num_rows = 2, num_cols = 2, num_entries = 4,
                row_indices = [0, 0, 1, 1], column_indices = [0, 1, 0, 1],
                vals = [1, 2, 3, 4]\<rparr>,
      matrix_t = \<lparr>view_num_rows = 2, view_num_cols = 2, view_num_entries = 4\<rparr>,
      permutation = [0, 2, 1, 3], entries = []\<rparr>"

text \<open>The scenario with the value at \<open>(0, 0)\<close> written twice more, last with 7.\<close>

definition overwritten_wrapper :: "int wrapper" where
  "overwritten_wrapper =
     \<lparr>matrix = \<lparr>num_rows = 2, num_cols = 2, num_entries = 4,
                row_indices = [0, 0, 1, 1], column_indices = [0, 1, 0, 1],
                vals = [7, 2, 3, 4]\<rparr>,
      matrix_t = \<lparr>view_num_rows = 2, view_num_cols = 2, view_num_entries = 4\<rparr>,
      permutation = [0, 2, 1, 3], entries = []\<rparr>"

text \<open>The scenario with the value at \<open>(0, 0)\<close> overwritten by zero.\<close>

definition zeroed_wrapper :: "int wrapper" where
  "zeroed_wrapper =
     \<lparr>matrix = \<lparr>num_rows = 2, num_cols = 2, num_entries = 3,
                row_indices = [0, 1, 1], column_indices = [1, 0, 1],
                vals = [2, 3, 4]\<rparr>,
      matrix_t = \<lparr>view_num_rows = 2, view_num_cols = 2, view_num_entries = 3\<rparr>,
      permutation = [1, 0, 2], entries = []\<rparr>"

text \<open>
  The example of dimension inference (section 8): non-zero entries at the rows 0, 3, 1
  and the columns 2, 5, 0.
\<close>

definition dimension_store :: "int wrapper" where
  "dimension_store =
     insert_entry (insert_entry (insert_entry SparseMatrixWrapper 0 2 1) 3 5 1) 1 0 1"

definition dimension_wrapper :: "int wrapper" where
  "dimension_wrapper =
     \<lparr>matrix = \<lparr>num_rows = 4, num_cols = 6, num_entries = 3,
                row_indices = [0, 1, 3], column_indices = [2, 0, 5],
                vals = [1, 1, 1]\<rparr>,
      matrix_t = \<lparr>view_num_rows = 4, view_num_cols = 6, view_num_entries = 3\<rparr>,
      permutation = [1, 0, 2], entries = []\<rparr>"

text \<open>One entry in the last row that a 32-bit index can name.\<close>

definition last_row_store :: "int wrapper" where
  "last_row_store = insert_entry SparseMatrixWrapper 4294967295 0 1"

definition last_row_wrapper :: "int wrapper" where
  "last_row_wrapper =
     \<lparr>matrix = \<lparr>num_rows = 0, num_cols = 1, num_entries = 1,
                row_indices = [4294967295], column_indices = [0], vals = [1]\<rparr>,
      matrix_t = \<lparr>view_num_rows = 0, view_num_cols = 1, view_num_entries = 1\<rparr>,
      permutation = [0], entries = []\<rparr>"

text \<open>
  The entries of a wide matrix (one row, two columns) and of a tall one (two rows, one
  column), and the wrappers that \<^verbatim>\<open>make_matrix\<close> leaves.
\<close>

definition wide_store :: "int wrapper" where
  "wide_store = insert_entry (insert_entry SparseMatrixWrapper 0 0 1) 0 1 2"

definition wide_wrapper :: "int wrapper" where
  "wide_wrapper =
     \<lparr>matrix = \<lparr>num_rows = 1, num_cols = 2, num_entries = 2,
                row_indices = [0, 0], column_indices = [0, 1], vals = [1, 2]\<rparr>,
      matrix_t = \<lparr>view_num_rows = 1, view_num_cols = 2, view_num_entries = 2\<rparr>,
      permutation = [0, 1], entries = []\<rparr>"

definition tall_store :: "int wrapper" where
  "tall_store = insert_entry (insert_entry SparseMatrixWrapper 0 0 1) 1 0 2"

definition tall_wrapper :: "int wrapper" where
  "tall_wrapper =
     \<lparr>matrix = \<lparr>num_rows = 2, num_cols = 1, num_entries = 2,
                row_indices = [0, 1], column_indices = [0, 0], vals = [1, 2]\<rparr>,
      matrix_t = \<lparr>view_num_rows = 2, view_num_cols = 1, view_num_entries = 2\<rparr>,
      permutation = [0, 1], entries = []\<rparr>"

text \<open>One complex entry, the imaginary unit at \<open>(0, 0)\<close>.\<close>

definition unit_store :: "complex wrapper" where
  "unit_store = insert_entry SparseMatrixWrapper 0 0 \<i>"

definition unit_wrapper :: "complex wrapper" where
  "unit_wrapper =
     \<lparr>matrix = \<lparr>num_rows = 1, num_cols = 1, num_entries = 1,
                row_indices = [0], column_indices = [0], vals = [\<i>]\<rparr>,
      matrix_t = \<lparr>view_num_rows = 1, view_num_cols = 1, view_num_entries = 1\<rparr>,
      permutation = [0], entries = []\<rparr>"

text \<open>A store of the caller with the vector \<open>x\<close> at address 0 and \<open>y\<close> at address 1.\<close>

definition two_vectors :: "'v list \<Rightarrow> 'v list \<Rightarrow> nat \<Rightarrow> 'v list" where
  "two_vectors x y = (\<lambda>a. [])(0 := x, 1 := y)"

section \<open>The codec is lossless\<close>

lemma key_is_disjoint_or:
  "row_col_to_key row col = or (push_bit 32 (ucast row :: key)) (ucast col)"
  unfolding row_col_to_key_def
  by (rule disjunctive_add_eq_or) (auto simp add: bit_eq_iff bit_simps dest: bit_imp_le_length)

lemma key_to_row_col_row_col_to_key:
  "key_to_row_col (row_col_to_key row col) = (row, col)"
  unfolding key_to_row_col_def key_is_disjoint_or
  by (auto simp add: bit_eq_iff bit_simps dest: bit_imp_le_length)

lemma row_col_to_key_key_to_row_col:
  "row_col_to_key (fst (key_to_row_col k)) (snd (key_to_row_col k)) = k"
  unfolding key_to_row_col_def key_is_disjoint_or
  by (auto simp add: bit_eq_iff bit_simps dest: bit_imp_le_length)

lemma key_to_row_col_eq_iff:
  "(fst (key_to_row_col k) = row \<and> snd (key_to_row_col k) = col) \<longleftrightarrow>
     k = row_col_to_key row col"
  using row_col_to_key_key_to_row_col [of k] key_to_row_col_row_col_to_key [of row col]
  by auto

text \<open>
  C9. The composite-key codec is a lossless round trip on 32-bit indices: decoding the
  key of \<open>(row, col)\<close> gives \<open>(row, col)\<close> back, and so two coordinates have the same
  64-bit key only when they are the same coordinate.
\<close>

theorem key_codec_round_trip:
  "key_to_row_col (row_col_to_key row col) = (row, col) \<and>
   (row_col_to_key row col = row_col_to_key row' col') = (row = row' \<and> col = col')"
proof -
  have "row = row' \<and> col = col'" if "row_col_to_key row col = row_col_to_key row' col'"
  proof -
    from that have "key_to_row_col (row_col_to_key row col)
      = key_to_row_col (row_col_to_key row' col')" by simp
    then show ?thesis by (simp add: key_to_row_col_row_col_to_key)
  qed
  then show ?thesis by (auto simp: key_to_row_col_row_col_to_key)
qed

section \<open>The converting constructor\<close>

text \<open>
  C10. The converting constructor assigns its parameter to itself: whatever matrix it is
  given, the wrapper it makes is the default-constructed one, with the empty matrix and
  all three counts zero.
\<close>

theorem converting_constructor_discards_matrix:
  "SparseMatrixWrapper_from m = SparseMatrixWrapper \<and>
   matrix (SparseMatrixWrapper_from m) = empty_matrix \<and>
   get_num_rows (SparseMatrixWrapper_from m) = 0 \<and>
   get_num_cols (SparseMatrixWrapper_from m) = 0 \<and>
   get_num_entries (SparseMatrixWrapper_from m) = 0"
  by (simp add: SparseMatrixWrapper_from_def SparseMatrixWrapper_def empty_matrix_def
      get_num_rows_def get_num_cols_def get_num_entries_def)

section \<open>Stable sorts and the row-major order\<close>

lemma insort_key_map:
  "insort_key f (h x) (map h ys) = map h (insort_key (\<lambda>a. f (h a)) x ys)"
  by (induction ys) simp_all

lemma sort_key_map:
  "sort_key f (map h xs) = map h (sort_key (\<lambda>a. f (h a)) xs)"
  by (induction xs) (simp_all add: insort_key_map)

lemma lex_le_imp_le: "lex_le f g a b \<Longrightarrow> f a \<le> f b"
  by (auto simp: lex_le_def)

lemma lex_le_iff_pair_le: "lex_le f g a b \<longleftrightarrow> (f a, g a) \<le> (f b, g b)"
  by (auto simp: lex_le_def less_eq_prod_def)

lemma insort_key_lex:
  assumes "sorted_wrt (lex_le f g) ys" and "\<And>y. y \<in> set ys \<Longrightarrow> g x \<le> g y"
  shows "sorted_wrt (lex_le f g) (insort_key f x ys)"
  using assms
proof (induction ys)
  case Nil
  then show ?case by simp
next
  case (Cons y ys)
  show ?case
  proof (cases "f x \<le> f y")
    case True
    have "lex_le f g x z" if "z \<in> set (y # ys)" for z
    proof -
      have "f y \<le> f z" using that Cons.prems(1) by (auto dest: lex_le_imp_le)
      with True have "f x \<le> f z" by simp
      moreover have "g x \<le> g z" using that Cons.prems(2) by simp
      ultimately show ?thesis by (auto simp: lex_le_def)
    qed
    with True Cons.prems(1) show ?thesis by simp
  next
    case False
    then have "lex_le f g y x" by (auto simp: lex_le_def)
    moreover have "sorted_wrt (lex_le f g) (insort_key f x ys)"
      using Cons by simp
    ultimately show ?thesis using False Cons.prems(1) by (auto simp: set_insort_key)
  qed
qed

lemma sort_key_lex:
  "sorted (map g xs) \<Longrightarrow> sorted_wrt (lex_le f g) (sort_key f xs)"
proof (induction xs)
  case Nil
  then show ?case by simp
next
  case (Cons x xs)
  then show ?case by (auto intro!: insort_key_lex)
qed

lemma two_pass_lex: "sorted_wrt (lex_le f g) (sort_key f (sort_key g xs))"
  by (rule sort_key_lex) simp

lemma sort_key_pair:
  assumes "sorted (map g xs)"
  shows "sort_key (\<lambda>t. (f t, g t)) xs = sort_key f xs"
proof (rule properties_for_sort_key)
  show "mset (sort_key f xs) = mset xs" by simp
next
  fix k
  have "filter (\<lambda>x. (f k, g k) = (f x, g x)) (sort_key f xs) =
      filter (\<lambda>x. g x = g k) (filter (\<lambda>x. f x = f k) (sort_key f xs))"
    by (auto intro: filter_cong)
  also have "\<dots> = filter (\<lambda>x. g x = g k) (filter (\<lambda>x. f x = f k) xs)"
    by (simp only: sort_key_stable)
  also have "\<dots> = filter (\<lambda>x. (f k, g k) = (f x, g x)) xs"
    by (auto intro: filter_cong)
  finally show "filter (\<lambda>x. (f k, g k) = (f x, g x)) (sort_key f xs) =
      filter (\<lambda>x. (f k, g k) = (f x, g x)) xs" .
next
  have "sorted_wrt (lex_le f g) (sort_key f xs)"
    using assms by (rule sort_key_lex)
  then show "sorted (map (\<lambda>t. (f t, g t)) (sort_key f xs))"
    by (simp add: sorted_wrt_map lex_le_iff_pair_le [abs_def])
qed

lemma zip3_swap:
  "zip (map (fst \<circ> snd) s) (zip (map fst s) (map (snd \<circ> snd) s)) = map swap12 s"
  by (induction s) (auto simp: swap12_def)

lemma zip3_id:
  "zip (map fst s) (zip (map (fst \<circ> snd) s) (map (snd \<circ> snd) s)) = s"
  by (induction s) auto

lemma sort_triplets_eq:
  "sort_triplets ts =
     (let s = sort_key fst (sort_key (fst \<circ> snd) ts)
      in (map fst s, map (fst \<circ> snd) s, map (snd \<circ> snd) s))"
proof -
  define s1 where "s1 = sort_key (fst \<circ> snd) ts"
  define s2 where "s2 = sort_key fst s1"
  have a: "sort_key fst (map swap12 ts) = map swap12 s1"
    by (simp add: sort_key_map s1_def swap12_def o_def)
  have c: "swap12 \<circ> swap12 = (id :: index \<times> index \<times> 'a \<Rightarrow> _)"
    by (auto simp: swap12_def)
  show ?thesis
    unfolding sort_triplets_def stable_sort_by_key_def
    by (simp add: Let_def zip3_swap a c s2_def) (simp add: s1_def)
qed

subsection \<open>What make_matrix returns, and when\<close>

lemma max_element_Inr:
  "max_element xs = Inr m \<Longrightarrow> xs \<noteq> [] \<and> m = Max (set xs)"
  by (cases xs) (auto simp flip: Max.set_eq_fold)

lemma max_element_returns: "xs \<noteq> [] \<Longrightarrow> max_element xs = Inr (Max (set xs))"
  by (cases xs) (simp_all flip: Max.set_eq_fold)

lemma make_matrix_Inr:
  assumes "make_matrix w = Inr w'"
  defines "s \<equiv> canonical (stage_entries (entries w))"
  shows "row_indices (matrix w') = map fst s"
    and "column_indices (matrix w') = map (fst \<circ> snd) s"
    and "vals (matrix w') = map (snd \<circ> snd) s"
    and "num_entries (matrix w') = length s"
    and "s \<noteq> []"
    and "num_rows (matrix w') = unat (Max (set (map fst s)) + 1)"
    and "num_cols (matrix w') = unat (Max (set (map (fst \<circ> snd) s)) + 1)"
    and "matrix_t w' = \<lparr>view_num_rows = num_rows (matrix w'), view_num_cols = num_cols (matrix w'),
           view_num_entries = num_entries (matrix w')\<rparr>"
    and "permutation w' =
           snd (stable_sort_by_key (map (fst \<circ> snd) s) (counting_array (length s)))"
    and "list_all (\<lambda>k. k \<le> Max (set (map (fst \<circ> snd) s)) + 1) (map (fst \<circ> snd) s)"
    and "entries w' = []"
  using assms(1)
  unfolding make_matrix_def sort_triplets_eq s_def canonical_def counting_sort_by_key_def
  by (auto simp: Let_def split: sum.splits if_splits prod.splits dest!: max_element_Inr)

lemma make_matrix_returns:
  assumes "stage_entries (entries w) \<noteq> []"
    and "unat (max_col (stage_entries (entries w))) < 2 ^ 32 - 1"
  shows "\<exists>w'. make_matrix w = Inr w'"
proof -
  define s where "s = canonical (stage_entries (entries w))"
  have "length s = length (stage_entries (entries w))"
    by (simp add: s_def canonical_def)
  with assms(1) have ne: "s \<noteq> []" by auto
  have mc: "max_col (stage_entries (entries w)) = Max (set (map (fst \<circ> snd) s))"
    by (simp add: max_col_def s_def canonical_def)
  have "k \<le> Max (set (map (fst \<circ> snd) s)) + 1" if "k \<in> set (map (fst \<circ> snd) s)" for k
  proof -
    have "k \<le> Max (set (map (fst \<circ> snd) s))" using that by (intro Max_ge) simp_all
    moreover have "Max (set (map (fst \<circ> snd) s)) \<le> Max (set (map (fst \<circ> snd) s)) + 1"
      using assms(2) unfolding mc by (simp add: word_le_nat_alt unat_word_ariths)
    ultimately show ?thesis by simp
  qed
  then have "list_all (\<lambda>k. k \<le> Max (set (map (fst \<circ> snd) s)) + 1) (map (fst \<circ> snd) s)"
    unfolding list_all_iff by blast
  then show ?thesis
    using ne
    by (simp add: make_matrix_def sort_triplets_eq max_element_returns Let_def
        counting_sort_by_key_def split_def flip: s_def canonical_def)
qed

lemma triplets_make_matrix:
  "make_matrix w = Inr w' \<Longrightarrow> triplets (matrix w') = canonical (stage_entries (entries w))"
  by (simp add: triplets_def make_matrix_Inr zip3_id)

lemma coordinates_make_matrix:
  "make_matrix w = Inr w' \<Longrightarrow>
    coordinates (matrix w') = map (\<lambda>t. (fst t, fst (snd t))) (canonical (stage_entries (entries w)))"
  by (simp add: coordinates_def make_matrix_Inr zip_map_map o_def zip_same_conv_map)

lemma canonical_row_major:
  "sorted_wrt row_major (map (\<lambda>t. (fst t, fst (snd t))) (canonical ts))"
proof -
  have "sorted_wrt (lex_le fst (fst \<circ> snd)) (canonical ts)"
    unfolding canonical_def by (rule two_pass_lex)
  then show ?thesis
    by (simp add: sorted_wrt_map lex_le_def [abs_def] row_major_def)
qed

subsection \<open>Evaluation on the concrete inputs\<close>

lemma make_matrix_square_store: "make_matrix square_store = Inr square_wrapper"
  by code_simp

lemma make_matrix_overwritten:
  "make_matrix (insert_entry (insert_entry square_store 0 0 5) 0 0 7) = Inr overwritten_wrapper"
  by code_simp

lemma make_matrix_zeroed:
  "make_matrix (insert_entry square_store 0 0 0) = Inr zeroed_wrapper"
  by code_simp

lemma make_matrix_dimension_store: "make_matrix dimension_store = Inr dimension_wrapper"
  by code_simp

lemma make_matrix_last_row_store: "make_matrix last_row_store = Inr last_row_wrapper"
  by code_simp

lemma make_matrix_wide_store: "make_matrix wide_store = Inr wide_wrapper"
  by code_simp

lemma make_matrix_tall_store: "make_matrix tall_store = Inr tall_wrapper"
  by code_simp

lemma make_matrix_unit_store: "make_matrix unit_store = Inr unit_wrapper"
  by (simp add: unit_store_def unit_wrapper_def make_matrix_def insert_entry_def
      SparseMatrixWrapper_def row_col_to_key_def key_to_row_col_def sort_triplets_def
      stable_sort_by_key_def counting_sort_by_key_def counting_array_def empty_matrix_def)

lemma distinct_square_store: "distinct (map fst (entries square_store))"
  by code_simp

subsection \<open>The order of the triplets\<close>

text \<open>
  C1. Whenever \<^verbatim>\<open>make_matrix\<close> returns, the coordinates of the matrix are in
  row-major order (non-decreasing rows, and non-decreasing columns among equal rows),
  the row indices are sorted, and the triplets are the staged ones after a stable sort
  by column followed by a stable sort by row.
\<close>

theorem make_matrix_row_major:
  assumes "make_matrix w = Inr w'"
  shows "sorted_wrt row_major (coordinates (matrix w')) \<and>
         sorted (row_indices (matrix w')) \<and>
         triplets (matrix w') =
           sort_key fst (sort_key (fst \<circ> snd) (stage_entries (entries w)))"
proof -
  have "sorted (row_indices (matrix w'))"
    using make_matrix_Inr(1)[OF assms] by (simp add: canonical_def)
  then show ?thesis
    using assms canonical_row_major
    by (simp add: coordinates_make_matrix triplets_make_matrix canonical_def)
qed

theorem make_matrix_row_major_witness:
  "make_matrix square_store = Inr square_wrapper \<and>
   sorted_wrt row_major (coordinates (matrix square_wrapper)) \<and>
   coordinates (matrix square_wrapper) = [(0, 0), (0, 1), (1, 0), (1, 1)]"
  using make_matrix_row_major [OF make_matrix_square_store] make_matrix_square_store
  by (simp add: square_wrapper_def coordinates_def)

section \<open>What the staging keeps\<close>

lemma stage_entries_Cons:
  "stage_entries (p # es) =
     (if snd p = 0 then stage_entries es
      else (fst (key_to_row_col (fst p)), snd (key_to_row_col (fst p)), snd p) # stage_entries es)"
  by (cases p) (simp add: split_def Let_def)

lemma stage_entries_eq:
  "stage_entries es =
     map (\<lambda>p. (fst (key_to_row_col (fst p)), snd (key_to_row_col (fst p)), snd p))
       (filter (\<lambda>p. snd p \<noteq> 0) es)"
  by (induction es) (simp_all add: stage_entries_Cons del: stage_entries.simps(2))

lemma filter_stage_entries:
  "filter (\<lambda>t. fst t = row \<and> fst (snd t) = col) (stage_entries es) =
     stage_entries (filter (\<lambda>p. fst p = row_col_to_key row col) es)"
  by (induction es)
    (simp_all add: stage_entries_Cons key_to_row_col_eq_iff del: stage_entries.simps(2))

lemma filter_key_distinct:
  "distinct (map fst es) \<Longrightarrow>
     filter (\<lambda>p. fst p = k) es = (case map_of es k of None \<Rightarrow> [] | Some v \<Rightarrow> [(k, v)])"
proof (induction es)
  case Nil
  then show ?case by simp
next
  case (Cons p es)
  show ?case
  proof (cases "fst p = k")
    case True
    with Cons.prems have "k \<notin> fst ` set es" by auto
    then have "filter (\<lambda>p. fst p = k) es = []" by (auto simp: filter_empty_conv)
    with True show ?thesis by (cases p) auto
  next
    case False
    with Cons show ?thesis by (cases p) auto
  qed
qed

lemma filter_canonical: "filter P (canonical ts) = canonical (filter P ts)"
  by (simp add: canonical_def filter_sort)

lemma entries_at_make_matrix:
  assumes "distinct (map fst (entries w))" and "make_matrix w = Inr w'"
  shows "entries_at (matrix w') row col =
    (case map_of (entries w) (row_col_to_key row col) of
       None \<Rightarrow> [] | Some v \<Rightarrow> if v = 0 then [] else [v])"
proof -
  let ?k = "row_col_to_key row col"
  have "entries_at (matrix w') row col =
    map (snd \<circ> snd) (canonical (stage_entries (filter (\<lambda>p. fst p = ?k) (entries w))))"
    using assms(2)
    by (simp add: entries_at_def triplets_make_matrix filter_canonical filter_stage_entries)
  also have "filter (\<lambda>p. fst p = ?k) (entries w) =
    (case map_of (entries w) ?k of None \<Rightarrow> [] | Some v \<Rightarrow> [(?k, v)])"
    using assms(1) by (rule filter_key_distinct)
  finally show ?thesis
    by (simp add: canonical_def key_to_row_col_row_col_to_key split: option.splits)
qed

lemma vals_make_matrix:
  "make_matrix w = Inr w' \<Longrightarrow> 0 \<notin> set (vals (matrix w'))"
  by (auto simp add: make_matrix_Inr canonical_def stage_entries_eq)

lemma entries_insert_entry:
  "distinct (map fst (entries w)) \<Longrightarrow> distinct (map fst (entries (insert_entry w row col v)))"
  "map_of (entries (insert_entry w row col v)) = (map_of (entries w))(row_col_to_key row col \<mapsto> v)"
  by (simp_all add: insert_entry_def distinct_update update_conv')

text \<open>
  The keys of the store are unique in every state that the operations reach, and an
  entry that was removed is not materialized.
\<close>

text \<open>
  The keys of the store are unique in every state that the operations reach, and an
  entry that was removed is not materialized.
\<close>

lemma unique_keys_invariant:
  "distinct (map fst (entries (SparseMatrixWrapper :: 'v wrapper)))"
  "distinct (map fst (entries w)) \<Longrightarrow> distinct (map fst (entries (insert_entry w row col v)))"
  "distinct (map fst (entries w)) \<Longrightarrow> distinct (map fst (entries (remove_entry w row col)))"
  "make_matrix w0 = Inr w' \<Longrightarrow> distinct (map fst (entries w'))"
  by (simp_all add: SparseMatrixWrapper_def insert_entry_def remove_entry_def
      distinct_update distinct_delete make_matrix_Inr)

lemma entries_at_removed:
  assumes "distinct (map fst (entries w))"
    and "make_matrix (remove_entry w row col) = Inr w'"
  shows "entries_at (matrix w') row col = []"
proof -
  have "distinct (map fst (entries (remove_entry w row col)))"
    using assms(1) by (rule unique_keys_invariant)
  from entries_at_make_matrix [OF this assms(2)]
  show ?thesis by (simp add: remove_entry_def delete_conv')
qed

text \<open>
  C3. In a store with one pair for each key, writing \<open>(row, col)\<close> twice, last with a
  non-zero value \<open>v2\<close>, and materializing leaves exactly one entry at \<open>(row, col)\<close>,
  and its value is \<open>v2\<close>.
\<close>

theorem overwrite_last_write_wins:
  assumes "distinct (map fst (entries w))" and "v2 \<noteq> 0"
    and "make_matrix (insert_entry (insert_entry w row col v1) row col v2) = Inr w'"
  shows "entries_at (matrix w') row col = [v2]"
proof -
  let ?w2 = "insert_entry (insert_entry w row col v1) row col v2"
  have "distinct (map fst (entries ?w2))"
    using assms(1) by (simp add: entries_insert_entry)
  from entries_at_make_matrix [OF this assms(3)] assms(2)
  show ?thesis by (simp add: entries_insert_entry)
qed

theorem overwrite_last_write_wins_witness:
  "distinct (map fst (entries square_store)) \<and> (7 :: int) \<noteq> 0 \<and>
   make_matrix (insert_entry (insert_entry square_store 0 0 5) 0 0 7) = Inr overwritten_wrapper \<and>
   entries_at (matrix overwritten_wrapper) 0 0 = [7]"
proof -
  have "(7 :: int) \<noteq> 0" by simp
  from overwrite_last_write_wins [OF distinct_square_store this make_matrix_overwritten]
  show ?thesis using distinct_square_store make_matrix_overwritten by simp
qed

text \<open>
  C4. When the last value written at \<open>(row, col)\<close> is zero, whatever the store held
  there before, the materialized matrix has no entry at \<open>(row, col)\<close>; and no entry of
  a materialized matrix is zero.
\<close>

theorem zero_is_filtered:
  assumes "distinct (map fst (entries w))"
    and "make_matrix (insert_entry w row col 0) = Inr w'"
  shows "entries_at (matrix w') row col = [] \<and> 0 \<notin> set (vals (matrix w'))"
proof -
  have "distinct (map fst (entries (insert_entry w row col 0)))"
    using assms(1) by (simp add: entries_insert_entry)
  from entries_at_make_matrix [OF this assms(2)] vals_make_matrix [OF assms(2)]
  show ?thesis by (simp add: entries_insert_entry)
qed

theorem zero_is_filtered_witness:
  "distinct (map fst (entries square_store)) \<and>
   make_matrix (insert_entry square_store 0 0 0) = Inr zeroed_wrapper \<and>
   entries_at (matrix zeroed_wrapper) 0 0 = [] \<and> 0 \<notin> set (vals (matrix zeroed_wrapper)) \<and>
   vals (matrix zeroed_wrapper) = [2, 3, 4]"
  using zero_is_filtered [OF distinct_square_store make_matrix_zeroed]
    distinct_square_store make_matrix_zeroed
  by (simp add: zeroed_wrapper_def)

subsection \<open>The order in which the store is iterated\<close>

text \<open>
  The association list fixes one order of iteration over the hash table. The result of
  \<^verbatim>\<open>make_matrix\<close> does not depend on it: two stores with the same pairs, one pair
  for each key, are materialized alike.
\<close>

text \<open>
  The association list fixes one order of iteration over the hash table. The result of
  \<^verbatim>\<open>make_matrix\<close> does not depend on it: two stores with the same pairs, one pair
  for each key, are materialized alike.
\<close>

lemma canonical_eq_sort_key_pair:
  assumes "inj_on (\<lambda>t. (fst t, fst (snd t))) (set ts)"
  shows "canonical ts = sort_key (\<lambda>t. (fst t, fst (snd t))) ts"
proof (rule sym, rule sort_key_inj_key_eq)
  show "mset ts = mset (canonical ts)" by (simp add: canonical_def)
  show "inj_on (\<lambda>t. (fst t, fst (snd t))) (set ts)" by (rule assms)
  have "sorted_wrt (lex_le fst (fst \<circ> snd)) (canonical ts)"
    unfolding canonical_def by (rule two_pass_lex)
  then show "sorted (map (\<lambda>t. (fst t, fst (snd t))) (canonical ts))"
    by (simp add: sorted_wrt_map lex_le_iff_pair_le [abs_def])
qed

lemma canonical_mset:
  assumes "inj_on (\<lambda>t. (fst t, fst (snd t))) (set ts)" and "mset ts' = mset ts"
  shows "canonical ts' = canonical ts"
proof -
  have s: "set ts' = set ts" using assms(2) by (rule mset_eq_setD)
  have "sort_key (\<lambda>t. (fst t, fst (snd t))) ts' = sort_key (\<lambda>t. (fst t, fst (snd t))) ts"
  proof (rule sort_key_inj_key_eq)
    show "mset ts' = mset (sort_key (\<lambda>t. (fst t, fst (snd t))) ts)"
      using assms(2) by simp
    show "inj_on (\<lambda>t. (fst t, fst (snd t))) (set ts')" using assms(1) s by simp
    show "sorted (map (\<lambda>t. (fst t, fst (snd t))) (sort_key (\<lambda>t. (fst t, fst (snd t))) ts))"
      by simp
  qed
  with assms(1) s show ?thesis by (simp add: canonical_eq_sort_key_pair)
qed

lemma coordinates_inj_on_stage:
  assumes "distinct (map fst es)"
  shows "inj_on (\<lambda>t. (fst t, fst (snd t))) (set (stage_entries es))"
proof (rule inj_onI)
  fix a b
  assume a: "a \<in> set (stage_entries es)" and b: "b \<in> set (stage_entries es)"
    and eq: "(fst a, fst (snd a)) = (fst b, fst (snd b))"
  from a obtain p where p: "p \<in> set es"
    "a = (fst (key_to_row_col (fst p)), snd (key_to_row_col (fst p)), snd p)"
    by (auto simp: stage_entries_eq)
  from b obtain q where q: "q \<in> set es"
    "b = (fst (key_to_row_col (fst q)), snd (key_to_row_col (fst q)), snd q)"
    by (auto simp: stage_entries_eq)
  from eq p(2) q(2) have "key_to_row_col (fst p) = key_to_row_col (fst q)"
    by (simp add: prod_eq_iff)
  then have "fst p = fst q"
    by (metis row_col_to_key_key_to_row_col)
  with assms p(1) q(1) have "p = q"
    by (metis eq_key_imp_eq_value prod.collapse)
  with p(2) q(2) show "a = b" by simp
qed

lemma make_matrix_depends_on_canonical:
  "canonical (stage_entries (entries w2)) = canonical (stage_entries (entries w)) \<Longrightarrow>
     make_matrix w2 = make_matrix w"
  by (simp add: make_matrix_def sort_triplets_eq canonical_def)

lemma make_matrix_iteration_order:
  assumes "distinct (map fst (entries w))" and "mset (entries w2) = mset (entries w)"
  shows "make_matrix w2 = make_matrix w"
proof (rule make_matrix_depends_on_canonical, rule canonical_mset)
  show "inj_on (\<lambda>t. (fst t, fst (snd t))) (set (stage_entries (entries w)))"
    using assms(1) by (rule coordinates_inj_on_stage)
  show "mset (stage_entries (entries w2)) = mset (stage_entries (entries w))"
    using assms(2) by (simp add: stage_entries_eq)
qed

section \<open>The inferred extents\<close>

lemma unat_succ_no_wrap:
  assumes "(k :: index) \<noteq> - 1"
  shows "unat (k + 1) = unat k + 1"
proof -
  from assms have "1 + k \<noteq> 0" by (simp add: add_eq_0_iff)
  then have "unat (1 + k) = Suc (unat k)" by (rule unatSuc)
  then show ?thesis by (simp add: add.commute)
qed

text \<open>
  C5, as amended. Whenever \<^verbatim>\<open>make_matrix\<close> returns, some staged entry survived; the
  row count is one more than the largest surviving row index when that index is below
  \<open>2 ^ 32 - 1\<close>, and the column count is one more than the largest surviving column
  index when that index is below \<open>2 ^ 32 - 1\<close>.
\<close>

theorem dimensions_inferred:
  assumes "make_matrix w = Inr w'"
  shows "stage_entries (entries w) \<noteq> [] \<and>
    (unat (max_row (stage_entries (entries w))) < 2 ^ 32 - 1 \<longrightarrow>
       get_num_rows w' = 1 + unat (max_row (stage_entries (entries w)))) \<and>
    (unat (max_col (stage_entries (entries w))) < 2 ^ 32 - 1 \<longrightarrow>
       get_num_cols w' = 1 + unat (max_col (stage_entries (entries w))))"
proof -
  let ?ts = "stage_entries (entries w)"
  have ne: "?ts \<noteq> []"
    using make_matrix_Inr(5) [OF assms] by (auto simp: canonical_def)
  have r: "get_num_rows w' = unat (max_row ?ts + 1)"
    using make_matrix_Inr(6) [OF assms]
    by (simp add: get_num_rows_def max_row_def canonical_def)
  have c: "get_num_cols w' = unat (max_col ?ts + 1)"
    using make_matrix_Inr(7) [OF assms]
    by (simp add: get_num_cols_def max_col_def canonical_def)
  have "unat (k + 1) = 1 + unat k" if "unat k < 2 ^ 32 - 1" for k :: index
    using that by (simp add: unat_word_ariths)
  then show ?thesis
    using ne r c by simp
qed

theorem dimensions_inferred_witness:
  "make_matrix dimension_store = Inr dimension_wrapper \<and>
   max_row (stage_entries (entries dimension_store)) = 3 \<and>
   max_col (stage_entries (entries dimension_store)) = 5 \<and>
   get_num_rows dimension_wrapper = 4 \<and> get_num_cols dimension_wrapper = 6"
proof -
  have r: "max_row (stage_entries (entries dimension_store)) = 3" by code_simp
  have c: "max_col (stage_entries (entries dimension_store)) = 5" by code_simp
  from dimensions_inferred [OF make_matrix_dimension_store] r c
  show ?thesis using make_matrix_dimension_store by simp
qed

text \<open>
  C5, as stated, fails for an entry in row \<open>2 ^ 32 - 1\<close>: the row count computed is 0,
  while one more than the largest row index is \<open>2 ^ 32\<close>.
\<close>

theorem dimension_wraps_counterexample:
  "make_matrix last_row_store = Inr last_row_wrapper \<and>
   max_row (stage_entries (entries last_row_store)) = 4294967295 \<and>
   get_num_rows last_row_wrapper = 0 \<and>
   1 + unat (max_row (stage_entries (entries last_row_store))) = 4294967296"
proof -
  have r: "max_row (stage_entries (entries last_row_store)) = 4294967295" by code_simp
  show ?thesis using make_matrix_last_row_store r
    by (simp add: get_num_rows_def last_row_wrapper_def)
qed

lemma materialized_num_cols_pos:
  assumes "make_matrix w = Inr w'"
  shows "num_cols (matrix w') \<noteq> 0"
proof -
  define s where "s = canonical (stage_entries (entries w))"
  note mm = make_matrix_Inr [OF assms(1), folded s_def]
  let ?C = "Max (set (map (fst \<circ> snd) s))"
  have "?C \<in> set (map (fst \<circ> snd) s)"
    using mm(5) by (intro Max_in) simp_all
  then have "?C \<le> ?C + 1" using mm(10) by (auto simp: list_all_iff)
  then have "?C \<noteq> - 1" by auto
  then show ?thesis using mm(7) by (simp add: unat_succ_no_wrap)
qed

lemma materialized_in_range:
  assumes "make_matrix w = Inr w'" and "num_rows (matrix w') \<noteq> 0"
  shows "in_range (triplets (matrix w')) (num_rows (matrix w')) (num_cols (matrix w'))"
proof -
  define s where "s = canonical (stage_entries (entries w))"
  note mm = make_matrix_Inr [OF assms(1), folded s_def]
  let ?R = "Max (set (map fst s))" and ?C = "Max (set (map (fst \<circ> snd) s))"
  have t: "triplets (matrix w') = s"
    using triplets_make_matrix [OF assms(1)] by (simp add: s_def)
  have "?R \<noteq> - 1" using assms(2) mm(6) by auto
  then have rows: "num_rows (matrix w') = unat ?R + 1"
    using mm(6) by (simp add: unat_succ_no_wrap)
  have "?C \<in> set (map (fst \<circ> snd) s)"
    using mm(5) by (intro Max_in) simp_all
  then have "?C \<le> ?C + 1" using mm(10) by (auto simp: list_all_iff)
  then have "?C \<noteq> - 1" by auto
  then have cols: "num_cols (matrix w') = unat ?C + 1"
    using mm(7) by (simp add: unat_succ_no_wrap)
  have "unat (fst t) < num_rows (matrix w') \<and> unat (fst (snd t)) < num_cols (matrix w')"
    if "t \<in> set s" for t
  proof -
    have "fst t \<le> ?R" using that by (intro Max_ge) simp_all
    moreover have "fst (snd t) \<le> ?C" using that by (intro Max_ge) simp_all
    ultimately show ?thesis unfolding rows cols by (simp add: word_le_nat_alt)
  qed
  then show ?thesis unfolding t in_range_def list_all_iff by blast
qed

section \<open>The sparse product\<close>

lemmas numeric_defs =
  SpMV_def SpMVP_def multiply_def triplets_def transpose_view_def permuted_def
  conjugate_values_def add_into_def scale_def two_vectors_def

lemma length_coo_spmv_loop:
  "coo_spmv_loop ts x y = Inr y' \<Longrightarrow> length y' = length y"
  by (induction ts x y rule: coo_spmv_loop.induct) (auto split: if_splits)

lemma length_multiply: "multiply A x y = Inr y' \<Longrightarrow> length y' = length y"
  by (auto simp: multiply_def split: if_splits dest!: length_coo_spmv_loop)

lemma multiply_overwrites:
  "num_rows A = length y \<Longrightarrow> multiply A x y = multiply A x (replicate (length y) 0)"
  by (simp add: multiply_def)

lemma coo_spmv_loop_sum:
  fixes y :: "'v::semiring_0 list"
  assumes "in_range ts (length y) (length x)"
  shows "coo_spmv_loop ts x y = Inr (map (\<lambda>i. y ! i + row_product ts x i) [0..<length y])"
  using assms
proof (induction ts arbitrary: y)
  case Nil
  then show ?case by (simp add: row_product_def map_nth)
next
  case (Cons t ts)
  obtain i j a where t: "t = (i, j, a)" by (cases t)
  let ?y = "y[unat i := y ! unat i + a * x ! unat j]"
  from Cons.prems t have ij: "unat i < length y" "unat j < length x"
    and rest: "in_range ts (length ?y) (length x)"
    by (simp_all add: in_range_def)
  have "coo_spmv_loop (t # ts) x y = coo_spmv_loop ts x ?y"
    using ij t by simp
  also have "\<dots> = Inr (map (\<lambda>k. ?y ! k + row_product ts x k) [0..<length ?y])"
    using rest by (rule Cons.IH)
  also have "map (\<lambda>k. ?y ! k + row_product ts x k) [0..<length ?y] =
      map (\<lambda>k. y ! k + row_product (t # ts) x k) [0..<length y]"
  proof (rule map_cong)
    show "[0..<length ?y] = [0..<length y]" by simp
    fix k assume "k \<in> set [0..<length y]"
    then have k: "k < length y" by simp
    show "?y ! k + row_product ts x k = y ! k + row_product (t # ts) x k"
      using k ij t by (cases "k = unat i") (simp_all add: row_product_def add.assoc)
  qed
  finally show ?case .
qed

lemma multiply_is_product:
  fixes y :: "'v::semiring_0 list"
  assumes "in_range (triplets A) (num_rows A) (length x)" and "num_rows A \<le> length y"
  shows "multiply A x y =
     Inr (map (row_product (triplets A) x) [0..<num_rows A] @ drop (num_rows A) y)"
proof -
  let ?y0 = "replicate (num_rows A) 0 @ drop (num_rows A) y"
  have len: "length ?y0 = length y" using assms(2) by simp
  have "in_range (triplets A) (length ?y0) (length x)"
    using assms unfolding in_range_def len list_all_iff by fastforce
  then have "coo_spmv_loop (triplets A) x ?y0 =
      Inr (map (\<lambda>i. ?y0 ! i + row_product (triplets A) x i) [0..<length ?y0])"
    by (rule coo_spmv_loop_sum)
  also have "map (\<lambda>i. ?y0 ! i + row_product (triplets A) x i) [0..<length ?y0] =
      map (row_product (triplets A) x) [0..<num_rows A] @ drop (num_rows A) y"
  proof (rule nth_equalityI)
    show "length (map (\<lambda>i. ?y0 ! i + row_product (triplets A) x i) [0..<length ?y0]) =
        length (map (row_product (triplets A) x) [0..<num_rows A] @ drop (num_rows A) y)"
      using assms(2) by simp
  next
    fix k
    assume "k < length (map (\<lambda>i. ?y0 ! i + row_product (triplets A) x i) [0..<length ?y0])"
    then have k: "k < length y" using assms(2) by simp
    have zero: "row_product (triplets A) x k = 0" if "num_rows A \<le> k"
    proof -
      have "filter (\<lambda>t. unat (fst t) = k) (triplets A) = []"
        using assms(1) that unfolding in_range_def list_all_iff filter_empty_conv by fastforce
      then show ?thesis by (simp add: row_product_def)
    qed
    show "map (\<lambda>i. ?y0 ! i + row_product (triplets A) x i) [0..<length ?y0] ! k =
        (map (row_product (triplets A) x) [0..<num_rows A] @ drop (num_rows A) y) ! k"
      using k assms(2) zero by (cases "k < num_rows A") (simp_all add: nth_append)
  qed
  finally show ?thesis using assms(2) by (simp add: multiply_def)
qed

lemma multiply_square_materialized:
  fixes x :: "'v::semiring_0 list"
  assumes "make_matrix w0 = Inr w"
    and "num_rows (matrix w) = n" and "num_cols (matrix w) = n" and "length x = n"
  shows "multiply (matrix w) x (replicate n 0) =
     Inr (map (row_product (triplets (matrix w)) x) [0..<n])"
proof -
  have "n \<noteq> 0" using materialized_num_cols_pos [OF assms(1)] assms(3) by simp
  then have "in_range (triplets (matrix w)) (num_rows (matrix w)) (length x)"
    using materialized_in_range [OF assms(1)] assms(2-4) by simp
  from multiply_is_product [OF this, of "replicate n 0"] assms(2)
  show ?thesis by simp
qed

section \<open>The product with the matrix: conjugation\<close>

lemma SpMV_eq:
  "SpMV cf w s x y transposed conjugate =
     (case (if x = y
            then multiply (operand cf w transposed conjugate) (s x) (replicate (length (s x)) 0)
            else multiply (operand cf w transposed conjugate) (s x) (s y)) of
        Inl e \<Rightarrow> Inl e
      | Inr y' \<Rightarrow> Inr (conjugate_values cf conjugate (conjugate_values cf conjugate w), s(y := y')))"
  by (simp add: SpMV_def operand_def Let_def)

lemma conjugate_values_twice:
  "(\<And>v. f (f v) = v) \<Longrightarrow> conjugate_values (Some f) c (conjugate_values (Some f) c w) = w"
  by (simp add: conjugate_values_def o_def)

lemma conjugate_values_None: "conjugate_values None c w = w"
  by (simp add: conjugate_values_def)

lemma operand_None:
  "operand None w transposed conjugate = (if transposed then transpose_view w else matrix w)"
  by (simp add: operand_def conjugate_values_def)

lemma SpMV_None:
  assumes "multiply (operand None w transposed conjugate) (s x) (replicate n 0) = Inr Ax"
    and "num_rows (operand None w transposed conjugate) = n"
    and "length (s x) = n" and "length (s y) = n"
  shows "SpMV None w s x y transposed conjugate = Inr (w, s(y := Ax))"
proof (cases "x = y")
  case True
  with assms show ?thesis by (simp add: SpMV_eq conjugate_values_None)
next
  case False
  have "multiply (operand None w transposed conjugate) (s x) (s y) = Inr Ax"
    using multiply_overwrites [of "operand None w transposed conjugate" "s y" "s x"] assms
    by simp
  with False show ?thesis by (simp add: SpMV_eq conjugate_values_None)
qed

lemma SpMV_unit_wrapper:
  "SpMV (Some conjugate_functor) unit_wrapper (two_vectors [1] [0]) 0 1 False True =
     Inr (unit_wrapper, (two_vectors [1] [0])(1 := [- \<i>]))"
  by (simp add: SpMV_def unit_wrapper_def two_vectors_def conjugate_values_def
      conjugate_functor_def multiply_def triplets_def)

text \<open>
  C8. For a complex-valued matrix, whenever \<^verbatim>\<open>SpMV\<close> with \<^verbatim>\<open>conjugate = true\<close>
  returns, the wrapper it leaves is the one it was given: the stored values, the
  extents and the index sequences are what they were before the call, since the values
  are conjugated before the product and conjugated back after it, and conjugating
  twice gives the value back.
\<close>

theorem SpMV_conjugate_restores_matrix:
  assumes "SpMV (Some conjugate_functor) w s x y transposed True = Inr (w', s')"
  shows "w' = w \<and> vals (matrix w') = vals (matrix w) \<and>
         conjugate_functor (conjugate_functor z) = z"
proof -
  have "conjugate_values (Some conjugate_functor) True
          (conjugate_values (Some conjugate_functor) True w) = w"
    by (rule conjugate_values_twice) (simp add: conjugate_functor_def)
  with assms show ?thesis
    by (auto simp: SpMV_eq conjugate_functor_def split: sum.splits)
qed

theorem SpMV_conjugate_restores_matrix_witness:
  "SpMV (Some conjugate_functor) unit_wrapper (two_vectors [1] [0]) 0 1 False True =
     Inr (unit_wrapper, (two_vectors [1] [0])(1 := [- \<i>])) \<and>
   make_matrix unit_store = Inr unit_wrapper \<and>
   vals (matrix unit_wrapper) = [\<i>]"
  using SpMV_conjugate_restores_matrix [OF SpMV_unit_wrapper] SpMV_unit_wrapper
    make_matrix_unit_store
  by (simp add: unit_wrapper_def)

section \<open>The scaled product and sum\<close>

lemma axpy_general:
  fixes alpha beta :: "'v::comm_semiring_1"
  shows "length a = length b \<Longrightarrow> map2 (+) (scale alpha a) (scale beta b) = axpy alpha a beta b"
  by (induction a b rule: list_induct2) (simp_all add: scale_def axpy_def mult.commute)

lemma axpy_beta_zero:
  fixes alpha :: "'v::comm_semiring_1"
  shows "length a = length b \<Longrightarrow> axpy alpha a 0 b = scale alpha a"
  by (induction a b rule: list_induct2) (simp_all add: scale_def axpy_def mult.commute)

lemma axpy_alpha_zero:
  fixes beta :: "'v::comm_semiring_1"
  shows "length a = length b \<Longrightarrow> axpy 0 a beta b = scale beta b"
  by (induction a b rule: list_induct2) (simp_all add: scale_def axpy_def mult.commute)

lemma scale_one: "scale 1 v = (v :: 'v::comm_semiring_1 list)"
  by (simp add: scale_def)

lemma scale_zero: "scale 0 v = replicate (length v) (0 :: 'v::comm_semiring_1)"
  by (simp add: scale_def map_replicate_const)

lemma length_scale: "length (scale a v) = length v"
  by (simp add: scale_def)

lemma store_with_temp:
  "(\<lambda>a. ((\<lambda>r. case r of None \<Rightarrow> t | Some a \<Rightarrow> s a)(None := u)) (Some a)) = s"
  "((\<lambda>r. case r of None \<Rightarrow> t | Some a \<Rightarrow> s a)(None := u)) None = u"
  by (simp_all add: fun_eq_iff)

lemma SpMVP_beta_zero:
  fixes alpha :: "'v::comm_semiring_1"
  assumes "multiply (operand None w transposed conjugate) (s x) (replicate n 0) = Inr Ax"
    and "num_rows (operand None w transposed conjugate) = n"
    and "length (s x) = n" and "length (s y) = n"
  shows "SpMVP None w s alpha x 0 y transposed conjugate =
           Inr (w, s(y := axpy alpha Ax 0 (s y)))"
proof -
  have len: "length Ax = n" using length_multiply [OF assms(1)] by simp
  then have eq: "axpy alpha Ax 0 (s y) = scale alpha Ax"
    using assms(4) by (simp add: axpy_beta_zero)
  show ?thesis
  proof (cases "alpha = 0")
    case True
    then show ?thesis
      unfolding eq using len assms(4) by (simp add: SpMVP_def scale_zero)
  next
    case False
    then show ?thesis
      unfolding eq
      using SpMV_None [where s = s and x = x and y = y, OF assms] scale_one [of Ax]
      by (auto simp add: SpMVP_def)
  qed
qed

lemma SpMVP_beta_nonzero:
  fixes alpha beta :: "'v::comm_semiring_1"
  assumes "multiply (operand None w transposed conjugate) (s x) (replicate n 0) = Inr Ax"
    and "num_rows (operand None w transposed conjugate) = n"
    and "length (s x) = n" and "length (s y) = n" and "beta \<noteq> 0"
  shows "SpMVP None w s alpha x beta y transposed conjugate =
           Inr (w, s(y := axpy alpha Ax beta (s y)))"
proof -
  let ?temp = "replicate (length (s x)) (0 :: 'v)"
  let ?st = "\<lambda>r. case r of None \<Rightarrow> ?temp | Some a \<Rightarrow> s a"
  have len: "length Ax = n" using length_multiply [OF assms(1)] by simp
  have call: "SpMV None w ?st (Some x) None transposed conjugate = Inr (w, ?st(None := Ax))"
    by (rule SpMV_None [where n = n]) (use assms in simp_all)
  have eq: "axpy alpha Ax beta (s y) = map2 (+) (scale alpha Ax) (scale beta (s y))"
    using len assms(4) by (simp add: axpy_general)
  show ?thesis
  proof (cases "alpha = 0")
    case True
    then show ?thesis
      unfolding eq
      using assms(3-5) scale_one [of "s y"] len
      by (auto simp add: SpMVP_def Let_def add_into_def length_scale store_with_temp
          scale_zero)
  next
    case False
    then show ?thesis
      unfolding eq
      using assms(3-5) scale_one [of "s y"] scale_one [of Ax] len call
      by (auto simp add: SpMVP_def Let_def add_into_def length_scale store_with_temp
          fun_eq_iff)
  qed
qed

lemma SpMVP_square_materialized:
  fixes alpha beta :: "'v::comm_semiring_1"
  assumes "make_matrix w0 = Inr w"
    and "num_rows (matrix w) = n" and "num_cols (matrix w) = n"
    and "length (s x) = n" and "length (s y) = n"
  shows "SpMVP None w s alpha x beta y False False =
     Inr (w, s(y := axpy alpha (map (row_product (triplets (matrix w)) (s x)) [0..<n])
                      beta (s y)))"
proof -
  have p: "multiply (operand None w False False) (s x) (replicate n 0) =
      Inr (map (row_product (triplets (matrix w)) (s x)) [0..<n])"
    using multiply_square_materialized [OF assms(1-4)] by (simp add: operand_None)
  have r: "num_rows (operand None w False False) = n"
    using assms(2) by (simp add: operand_None)
  show ?thesis
  proof (cases "beta = 0")
    case True
    then show ?thesis using SpMVP_beta_zero [where s = s and x = x and y = y, OF p r assms(4,5)] by simp
  next
    case False
    then show ?thesis using SpMVP_beta_nonzero [where s = s and x = x and y = y, OF p r assms(4,5)] by simp
  qed
qed

lemma SpMVP_zero_zero:
  fixes w :: "'v::{zero_neq_one,plus,times} wrapper"
  shows "SpMVP cf w s 0 x 0 y transposed conjugate = Inr (w, s(y := map (\<lambda>e. e * 0) (s y)))"
  by (simp add: SpMVP_def scale_def)

text \<open>
  C6 fails on the code for matrices that are not square. \<^verbatim>\<open>SpMVP\<close> gives its
  temporary the extent of \<open>x\<close> (line 212), where the product has as many elements as
  the matrix has rows. With \<open>alpha = beta = 1\<close>: for the tall matrix, \<open>x = [1]\<close> and
  \<open>y = [0, 0]\<close> the product is written past the end of the temporary; for the wide
  matrix, \<open>x = [1, 1]\<close> and \<open>y = [0]\<close> the final addition runs past the end of
  \<open>y\<close>. The claim has \<open>y = [1, 2]\<close> and \<open>y = [3]\<close>.
\<close>

theorem SpMVP_rectangular_fault:
  "make_matrix tall_store = Inr tall_wrapper \<and>
   SpMVP None tall_wrapper (two_vectors [1] [0, 0]) 1 0 1 1 False False = Inl OutOfRange \<and>
   make_matrix wide_store = Inr wide_wrapper \<and>
   SpMVP None wide_wrapper (two_vectors [1, 1] [0]) 1 0 1 1 False False = Inl OutOfRange"
proof -
  have "SpMVP None tall_wrapper (two_vectors [1] [0, 0]) 1 0 1 1 False False = Inl OutOfRange"
    by (simp add: numeric_defs tall_wrapper_def eval_nat_numeral)
  moreover
  have "SpMVP None wide_wrapper (two_vectors [1, 1] [0]) 1 0 1 1 False False = Inl OutOfRange"
    by (simp add: numeric_defs wide_wrapper_def eval_nat_numeral)
  ultimately show ?thesis
    using make_matrix_tall_store make_matrix_wide_store by simp
qed

section \<open>The transpose view\<close>

lemma counting_sort_permutation:
  "snd (stable_sort_by_key (map f xs) (counting_array (length xs))) =
     map of_nat (sort_key (\<lambda>i. f (xs ! i)) [0..<length xs])"
proof -
  have "zip (map f xs) (counting_array (length xs)) =
      map (\<lambda>i. (f (xs ! i), of_nat i)) [0..<length xs]"
    by (rule nth_equalityI) (simp_all add: counting_array_def)
  then show ?thesis
    by (simp add: stable_sort_by_key_def sort_key_map o_def)
qed

lemma permutation_in_range:
  assumes "make_matrix w = Inr w'"
  shows "list_all (\<lambda>p. unat p < num_entries (matrix w')) (permutation w')"
proof -
  define s where "s = canonical (stage_entries (entries w))"
  note mm = make_matrix_Inr [OF assms, folded s_def]
  have "permutation w' =
      map of_nat (sort_key (\<lambda>i. (fst \<circ> snd) (s ! i)) [0..<length s])"
    unfolding mm(9) by (rule counting_sort_permutation)
  moreover have "unat (of_nat i :: index) < length s" if "i < length s" for i
  proof -
    have "unat (of_nat i :: index) \<le> i" by (simp add: unat_of_nat)
    with that show ?thesis by simp
  qed
  ultimately show ?thesis
    by (simp add: mm(4) list_all_iff)
qed

lemma sort_key_indices:
  "map ((!) xs) (sort_key (\<lambda>i. f (xs ! i)) [0..<length xs]) = sort_key f xs"
proof -
  have "map ((!) xs) (sort_key (\<lambda>i. f (xs ! i)) [0..<length xs]) =
      sort_key f (map ((!) xs) [0..<length xs])"
    by (simp add: sort_key_map)
  then show ?thesis by (simp add: map_nth)
qed

lemma permuted_counting_sort:
  assumes "length xs \<le> 2 ^ 32"
  shows "permuted (map g xs) (snd (stable_sort_by_key (map f xs) (counting_array (length xs)))) =
     map g (sort_key f xs)"
proof -
  let ?idx = "sort_key (\<lambda>i. f (xs ! i)) [0..<length xs]"
  have in_range: "i < length xs" if "i \<in> set ?idx" for i
    using that by simp
  have "permuted (map g xs) (map of_nat ?idx) = map (\<lambda>i. g (xs ! i)) ?idx"
    unfolding permuted_def map_map o_def
  proof (rule map_cong [OF refl])
    fix i assume "i \<in> set ?idx"
    then have i: "i < length xs" by (rule in_range)
    with assms have "i < 2 ^ 32" by simp
    then have "unat (of_nat i :: index) = i"
      by (simp add: unat_of_nat)
    with i show "map g xs ! unat (of_nat i :: index) = g (xs ! i)" by simp
  qed
  also have "\<dots> = map g (map ((!) xs) ?idx)" by (simp add: o_def)
  also have "\<dots> = map g (sort_key f xs)" by (simp only: sort_key_indices)
  finally show ?thesis by (simp only: counting_sort_permutation)
qed

lemma triplets_transposed_copy:
  "triplets (transposed_copy M) =
     sort_key (\<lambda>t. (fst t, fst (snd t))) (map swap12 (triplets M))"
  by (simp add: transposed_copy_def triplets_def Let_def zip3_id)

lemma transposed_copy_canonical:
  assumes "sorted (map fst ts)"
  shows "sort_key (\<lambda>t. (fst t, fst (snd t))) (map swap12 ts) =
     map swap12 (sort_key (fst \<circ> snd) ts)"
proof -
  have "sort_key (\<lambda>t. (fst t, fst (snd t))) (map swap12 ts) =
      map swap12 (sort_key (\<lambda>t. (fst (snd t), fst t)) ts)"
    by (simp add: sort_key_map swap12_def)
  also have "sort_key (\<lambda>t. (fst (snd t), fst t)) ts = sort_key (\<lambda>t. fst (snd t)) ts"
    using assms by (rule sort_key_pair)
  finally show ?thesis by (simp add: o_def)
qed

lemma transpose_view_make_matrix:
  assumes "make_matrix w = Inr w'" and "num_entries (matrix w') \<le> 2 ^ 32"
  shows "transpose_view w' =
     (transposed_copy (matrix w'))
       \<lparr>num_rows := num_rows (matrix w'), num_cols := num_cols (matrix w')\<rparr>"
proof -
  define s where "s = canonical (stage_entries (entries w))"
  note mm = make_matrix_Inr [OF assms(1), folded s_def]
  have len: "length s \<le> 2 ^ 32" using assms(2) mm(4) by simp
  have sorted: "sorted (map fst s)" by (simp add: s_def canonical_def)
  have perm: "permutation w' =
      snd (stable_sort_by_key (map (fst \<circ> snd) s) (counting_array (length s)))"
    by (rule mm(9))
  have t: "triplets (matrix w') = s"
    using triplets_make_matrix [OF assms(1)] by (simp add: s_def)
  have copy: "triplets (transposed_copy (matrix w')) = map swap12 (sort_key (fst \<circ> snd) s)"
    by (simp add: triplets_transposed_copy t transposed_copy_canonical [OF sorted])
  have r: "permuted (column_indices (matrix w')) (permutation w') =
      map (fst \<circ> snd) (sort_key (fst \<circ> snd) s)"
    unfolding mm(2) perm by (rule permuted_counting_sort [OF len])
  have c: "permuted (row_indices (matrix w')) (permutation w') =
      map fst (sort_key (fst \<circ> snd) s)"
    unfolding mm(1) perm by (rule permuted_counting_sort [OF len])
  have v: "permuted (vals (matrix w')) (permutation w') =
      map (snd \<circ> snd) (sort_key (fst \<circ> snd) s)"
    unfolding mm(3) perm by (rule permuted_counting_sort [OF len])
  show ?thesis
    unfolding transpose_view_def r c v
    apply (simp add: transposed_copy_def Let_def mm(8) t transposed_copy_canonical [OF sorted])
    apply (simp add: swap12_def o_def)
    done
qed

lemma transpose_view_square:
  assumes "make_matrix w = Inr w'" and "num_entries (matrix w') \<le> 2 ^ 32"
    and "num_rows (matrix w') = num_cols (matrix w')"
  shows "transpose_view w' = transposed_copy (matrix w')"
  using transpose_view_make_matrix [OF assms(1,2)] assms(3)
  by (simp add: transposed_copy_def Let_def)

lemma SpMV_transposed_square:
  assumes "make_matrix w = Inr w'" and "num_entries (matrix w') \<le> 2 ^ 32"
    and "num_rows (matrix w') = num_cols (matrix w')"
  shows "SpMV None w' s x y True conjugate =
     (case (if x = y
            then multiply (transposed_copy (matrix w')) (s x) (replicate (length (s x)) 0)
            else multiply (transposed_copy (matrix w')) (s x) (s y)) of
        Inl e \<Rightarrow> Inl e
      | Inr y' \<Rightarrow> Inr (w', s(y := y')))"
  using transpose_view_square [OF assms]
  by (simp add: SpMV_eq operand_None conjugate_values_None cong: sum.case_cong)

text \<open>
  C2 fails on the code for matrices that are not square. The view is made with the
  extents of the matrix itself, not exchanged (line 127). For the wide matrix, \<open>x = [1]\<close>
  and \<open>y = [5, 7]\<close>, the transposed call leaves \<open>y = [1, 9]\<close>, since the view has
  one row and only the first element of \<open>y\<close> is set to zero; the product with the
  explicitly transposed copy is \<open>[1, 2]\<close>. For the tall matrix, \<open>x = [1, 1]\<close> and
  \<open>y = [0]\<close>, the view has two rows and the call writes past the end of \<open>y\<close>; the
  product with the copy is \<open>[3]\<close>.
\<close>

theorem SpMV_transposed_rectangular:
  "make_matrix wide_store = Inr wide_wrapper \<and>
   SpMV None wide_wrapper (two_vectors [1] [5, 7]) 0 1 True False =
     Inr (wide_wrapper, (two_vectors [1] [5, 7])(1 := [1, 9])) \<and>
   multiply (transposed_copy (matrix wide_wrapper)) [1] [5, 7] = Inr [1, 2] \<and>
   num_rows (transpose_view wide_wrapper) = 1 \<and>
   num_rows (transposed_copy (matrix wide_wrapper)) = 2 \<and>
   make_matrix tall_store = Inr tall_wrapper \<and>
   SpMV None tall_wrapper (two_vectors [1, 1] [0]) 0 1 True False = Inl OutOfRange \<and>
   multiply (transposed_copy (matrix tall_wrapper)) [1, 1] [0] = Inr [3]"
proof -
  have 1: "SpMV None wide_wrapper (two_vectors [1] [5, 7]) 0 1 True False =
     Inr (wide_wrapper, (two_vectors [1] [5, 7])(1 := [1, 9]))"
    by (simp add: numeric_defs wide_wrapper_def eval_nat_numeral)
  have 2: "multiply (transposed_copy (matrix wide_wrapper)) [1] [5, 7] = Inr [1, 2]"
    by code_simp
  have 3: "SpMV None tall_wrapper (two_vectors [1, 1] [0]) 0 1 True False = Inl OutOfRange"
    by (simp add: numeric_defs tall_wrapper_def eval_nat_numeral)
  have 4: "multiply (transposed_copy (matrix tall_wrapper)) [1, 1] [0] = Inr [3]"
    by code_simp
  have 5: "num_rows (transpose_view wide_wrapper) = 1"
    "num_rows (transposed_copy (matrix wide_wrapper)) = 2"
    by (simp_all add: transpose_view_def transposed_copy_def wide_wrapper_def Let_def)
  show ?thesis
    using 1 2 3 4 5 make_matrix_tall_store make_matrix_wide_store by simp
qed

section \<open>The product in place\<close>

text \<open>
  In both branches of \<^verbatim>\<open>SpMV\<close> the backend reads one vector and writes another:
  with one storage for \<open>x\<close> and \<open>y\<close> it writes the temporary. When the matrix has as
  many rows as \<open>x\<close> has elements, and every column index is inside \<open>x\<close>, the call
  leaves what the two-step computation leaves: the product with \<open>x\<close> as it was before
  the call. This is so for every square matrix that \<^verbatim>\<open>make_matrix\<close> has made, with the
  transpose view as well.
\<close>

lemma in_range_transposed_copy:
  "in_range (triplets (transposed_copy M)) n m = in_range (triplets M) m n"
  by (auto simp: triplets_transposed_copy in_range_def list_all_iff swap12_def)

lemma SpMV_aliased_square:
  fixes s :: "'a \<Rightarrow> 'v::semiring_0 list"
  assumes "make_matrix w0 = Inr w" and "num_entries (matrix w) \<le> 2 ^ 32"
    and "num_rows (matrix w) = length (s x)" and "num_cols (matrix w) = length (s x)"
  shows "SpMV None w s x x transposed conjugate =
     Inr (w, two_step None w s x transposed conjugate)"
proof -
  let ?n = "length (s x)"
  have "?n \<noteq> 0" using materialized_num_cols_pos [OF assms(1)] assms(4) by simp
  then have r: "in_range (triplets (matrix w)) ?n ?n"
    using materialized_in_range [OF assms(1)] assms(3,4) by simp
  show ?thesis
  proof (cases transposed)
    case False
    have "in_range (triplets (matrix w)) (num_rows (matrix w)) (length (s x))"
      using r assms(3) by simp
    from multiply_is_product [OF this, of "replicate ?n 0"] assms(3) False
    show ?thesis
      by (simp add: SpMV_eq operand_None conjugate_values_None two_step_def)
  next
    case True
    have v: "transpose_view w = transposed_copy (matrix w)"
      using transpose_view_square [OF assms(1,2)] assms(3,4) by simp
    have n: "num_rows (transposed_copy (matrix w)) = ?n"
      using assms(4) by (simp add: transposed_copy_def Let_def)
    have "in_range (triplets (transposed_copy (matrix w)))
        (num_rows (transposed_copy (matrix w))) (length (s x))"
      using r by (simp add: in_range_transposed_copy n)
    from multiply_is_product [OF this, of "replicate ?n 0"] n True
    show ?thesis
      by (simp add: SpMV_eq operand_None conjugate_values_None two_step_def v)
  qed
qed

lemma SpMV_aliased_conforming:
  fixes s :: "'a \<Rightarrow> 'v::semiring_0 list"
  assumes "in_range (triplets (matrix w)) (num_rows (matrix w)) (length (s x))"
    and "num_rows (matrix w) = length (s x)"
  shows "SpMV None w s x x False conjugate = Inr (w, two_step None w s x False conjugate)"
  using multiply_is_product [OF assms(1), of "replicate (length (s x)) 0"] assms(2)
  by (simp add: SpMV_eq operand_None conjugate_values_None two_step_def)

text \<open>
  C7 fails on the code for matrices that are not square. With one storage for \<open>x\<close>
  and \<open>y\<close>, \<^verbatim>\<open>SpMV\<close> gives its temporary the extent of \<open>x\<close> (line 168), where the
  product has as many elements as the matrix has rows. For the tall matrix and
  \<open>x = [1]\<close> the product is written past the end of the temporary; the two-step
  computation leaves \<open>[1, 2]\<close>. For the wide matrix and \<open>x = [1, 1]\<close> the call leaves
  \<open>[3, 0]\<close>; the two-step computation leaves \<open>[3]\<close>.
\<close>

theorem SpMV_aliased_rectangular:
  "make_matrix tall_store = Inr tall_wrapper \<and>
   SpMV None tall_wrapper (two_vectors [1] []) 0 0 False False = Inl OutOfRange \<and>
   two_step None tall_wrapper (two_vectors [1] []) 0 False False =
     (two_vectors [1] [])(0 := [1, 2]) \<and>
   make_matrix wide_store = Inr wide_wrapper \<and>
   SpMV None wide_wrapper (two_vectors [1, 1] []) 0 0 False False =
     Inr (wide_wrapper, (two_vectors [1, 1] [])(0 := [3, 0])) \<and>
   two_step None wide_wrapper (two_vectors [1, 1] []) 0 False False =
     (two_vectors [1, 1] [])(0 := [3])"
proof -
  have 1: "SpMV None tall_wrapper (two_vectors [1] []) 0 0 False False = Inl OutOfRange"
    by (simp add: numeric_defs tall_wrapper_def eval_nat_numeral)
  have 2: "two_step None tall_wrapper (two_vectors [1] []) 0 False False =
     (two_vectors [1] [])(0 := [1, 2])"
    by (simp add: two_step_def conjugate_values_None triplets_def row_product_def
        tall_wrapper_def two_vectors_def eval_nat_numeral)
  have 3: "SpMV None wide_wrapper (two_vectors [1, 1] []) 0 0 False False =
     Inr (wide_wrapper, (two_vectors [1, 1] [])(0 := [3, 0]))"
    by (simp add: numeric_defs wide_wrapper_def eval_nat_numeral)
  have 4: "two_step None wide_wrapper (two_vectors [1, 1] []) 0 False False =
     (two_vectors [1, 1] [])(0 := [3])"
    by (simp add: two_step_def conjugate_values_None triplets_def row_product_def
        wide_wrapper_def two_vectors_def eval_nat_numeral)
  show ?thesis
    using 1 2 3 4 make_matrix_tall_store make_matrix_wide_store by simp
qed

end
